theory Spec2Isabelle
  imports Main
begin

section \<open>Strings\<close>

text \<open>
  A JavaScript string is modelled as a \<^typ>\<open>string\<close>: one \<^typ>\<open>char\<close> stands for one
  UTF-16 code unit below 256. The helpers below are the String methods the two source files
  call: \<^verbatim>\<open>indexOf\<close>, \<^verbatim>\<open>substring\<close> (as \<^const>\<open>drop\<close>), \<^verbatim>\<open>split\<close> and \<^verbatim>\<open>join\<close>.
\<close>

fun startsWith :: "string \<Rightarrow> string \<Rightarrow> bool" where
  "startsWith s [] = True"
| "startsWith [] (p # ps) = False"
| "startsWith (c # cs) (p # ps) = (c = p \<and> startsWith cs ps)"

text \<open>\<^verbatim>\<open>s.indexOf(pat)\<close>; \<open>None\<close> stands for the result \<^verbatim>\<open>-1\<close>.\<close>

fun indexOf :: "string \<Rightarrow> string \<Rightarrow> nat option" where
  "indexOf [] pat = (if pat = [] then Some 0 else None)"
| "indexOf (c # cs) pat =
     (if startsWith (c # cs) pat then Some 0 else map_option Suc (indexOf cs pat))"

text \<open>
  \<^verbatim>\<open>s.split(sep)\<close> for a string separator: the pieces between the non-overlapping
  occurrences of \<open>sep\<close>, found from the left. \<open>cur\<close> is the piece being read.
  With the empty separator JavaScript splits into single code units.
\<close>

function split_from :: "string \<Rightarrow> string \<Rightarrow> string \<Rightarrow> string list" where
  "split_from sep cur [] = [cur]"
| "split_from sep cur (c # cs) =
     (if sep \<noteq> [] \<and> startsWith (c # cs) sep
      then cur # split_from sep [] (drop (length sep) (c # cs))
      else split_from sep (cur @ [c]) cs)"
  by pat_completeness auto
termination
  by (relation "measure (\<lambda>(sep, cur, s). length s)") (auto simp: neq_Nil_conv)

definition split :: "string \<Rightarrow> string \<Rightarrow> string list" where
  "split s sep = (if sep = [] then map (\<lambda>c. [c]) s else split_from sep [] s)"

fun join :: "string list \<Rightarrow> string \<Rightarrow> string" where
  "join [] sep = []"
| "join [p] sep = p"
| "join (p # q # ps) sep = p @ sep @ join (q # ps) sep"

section \<open>The package balanced-match\<close>

text \<open>
  \<^verbatim>\<open>balanced('(', ')', str)\<close> comes from the third-party package balanced-match, which is
  not part of the repository. It is modelled on the package's documented behaviour: the
  result describes the first pair of parentheses of \<open>str\<close> that is closed at nesting depth
  one; when the string ends first, the outermost pair closed so far (\<^verbatim>\<open>((a)\<close> gives the
  body \<^verbatim>\<open>a\<close>); and \<^verbatim>\<open>undefined\<close> (here \<open>None\<close>) when no opening parenthesis is followed
  by a closing one. \<open>begs\<close> is the stack of the positions of the parentheses still open,
  \<open>lr\<close> the pair \<^verbatim>\<open>[left, right]\<close> recorded so far, \<open>i\<close> the position of the next character.
\<close>

fun range_from :: "nat \<Rightarrow> nat list \<Rightarrow> (nat \<times> nat) option \<Rightarrow> string \<Rightarrow> (nat \<times> nat) option" where
  "range_from i begs lr [] = lr"
| "range_from i begs lr (c # cs) =
     (if c = CHR ''('' then range_from (Suc i) (i # begs) lr cs
      else if c = CHR '')'' then
        (case begs of
           [] \<Rightarrow> range_from (Suc i) begs lr cs
         | [beg] \<Rightarrow> Some (beg, i)
         | beg # _ # rest \<Rightarrow>
             range_from (Suc i) (tl begs)
               (case lr of
                  None \<Rightarrow> Some (beg, i)
                | Some (left, right) \<Rightarrow> if beg < left then Some (beg, i) else lr) cs)
      else range_from (Suc i) begs lr cs)"

definition balanced_range :: "string \<Rightarrow> (nat \<times> nat) option" where
  "balanced_range str = range_from 0 [] None str"

text \<open>The field \<^verbatim>\<open>body\<close> of the result: \<^verbatim>\<open>str.slice(start + 1, end)\<close>.\<close>

definition balanced_body :: "string \<Rightarrow> string option" where
  "balanced_body str =
     (case balanced_range str of
        None \<Rightarrow> None
      | Some (l, r) \<Rightarrow> Some (take (r - Suc l) (drop (Suc l) str)))"

text \<open>
  A text whose parentheses are balanced, for the statements below: read from the left with
  \<open>d\<close> parentheses open, every closing parenthesis finds an open one, and none is open at
  the end.
\<close>

fun balanced_at :: "nat \<Rightarrow> string \<Rightarrow> bool" where
  "balanced_at d [] = (d = 0)"
| "balanced_at d (c # cs) =
     (if c = CHR ''('' then balanced_at (Suc d) cs
      else if c = CHR '')'' then d \<noteq> 0 \<and> balanced_at (d - 1) cs
      else balanced_at d cs)"

section \<open>Resolving one value: resolveValue\<close>

text \<open>
  The variable map \<^verbatim>\<open>map\<close> is a JavaScript object used as a dictionary from names to
  values. A key that was never written reads as \<^verbatim>\<open>undefined\<close> (the properties every
  object inherits, such as \<^verbatim>\<open>constructor\<close>, are left out of the model).
\<close>

type_synonym varmap = "string \<rightharpoonup> string"

text \<open>What \<^verbatim>\<open>resolveValue\<close> reports through \<^verbatim>\<open>settings.onWarning\<close>, one constructor
  for each of its three messages.\<close>

datatype warning =
    MissingParen string
  | EmptyVar
  | UndefinedVar string

text \<open>The only exception the modelled code raises itself: reading a property of
  \<^verbatim>\<open>undefined\<close>.\<close>

datatype error = TypeError

text \<open>
  The character classes of the regular expression
  \<^verbatim>\<open>RE_VAR = /([\w-]+)(?:\s*,\s*)?(.*)?/\<close>: \<^verbatim>\<open>[\w-]\<close>, \<^verbatim>\<open>\s\<close> and the line
  terminators, which \<^verbatim>\<open>.\<close> does not match.
\<close>

definition is_name_char :: "char \<Rightarrow> bool" where
  "is_name_char c =
     (c \<in> set ''ABCDEFGHIJKLMNOPQRSTUVWXYZabcdefghijklmnopqrstuvwxyz0123456789_-'')"

definition is_space :: "char \<Rightarrow> bool" where
  "is_space c =
     (c \<in> set [CHR 0x09, CHR 0x0A, CHR 0x0B, CHR 0x0C, CHR 0x0D, CHR 0x20, CHR 0xA0])"

definition is_line_terminator :: "char \<Rightarrow> bool" where
  "is_line_terminator c = (c = CHR 0x0A \<or> c = CHR 0x0D)"

text \<open>
  The first match of \<^verbatim>\<open>RE_VAR\<close> in \<open>s\<close>: the text before the match, the two captures
  \<open>name\<close> and \<open>fallback\<close>, and the text after the match. The match starts at the first
  name character; every later part of the expression can match the empty string, so the
  greedy choices stand. A capture \<open>fallback\<close> that took part in no match is
  \<^verbatim>\<open>undefined\<close> in JavaScript and is the empty string here: the code only tests it for
  truth.
\<close>

definition RE_VAR_exec :: "string \<Rightarrow> (string \<times> string \<times> string \<times> string) option" where
  "RE_VAR_exec s =
     (let pre = takeWhile (\<lambda>c. \<not> is_name_char c) s;
          rest = dropWhile (\<lambda>c. \<not> is_name_char c) s
      in if rest = [] then None
         else
           let name = takeWhile is_name_char rest;
               after_name = dropWhile is_name_char rest;
               after_space = dropWhile is_space after_name;
               after_comma =
                 (case after_space of
                    [] \<Rightarrow> after_name
                  | c # cs \<Rightarrow> if c = CHR '','' then dropWhile is_space cs else after_name);
               fallback = takeWhile (\<lambda>c. \<not> is_line_terminator c) after_comma;
               post = dropWhile (\<lambda>c. \<not> is_line_terminator c) after_comma
           in Some (pre, name, fallback, post))"

text \<open>
  The function passed to \<^verbatim>\<open>varRef.replace\<close> (lines 249 to 261): the replacement text,
  \<^verbatim>\<open>undefined\<close> turned into a string as \<^verbatim>\<open>replace\<close> does, and the warning raised.
\<close>

definition var_replacer :: "varmap \<Rightarrow> string \<Rightarrow> string \<Rightarrow> string \<times> warning list" where
  "var_replacer m name fallback =
     (let replacement = m name;
          no_replacement = (replacement = None \<or> replacement = Some []);
          ws = (if no_replacement \<and> fallback = [] then [UndefinedVar name] else [])
      in if no_replacement \<and> fallback \<noteq> [] then (fallback, ws)
         else (case replacement of None \<Rightarrow> (''undefined'', ws) | Some v \<Rightarrow> (v, ws)))"

text \<open>\<^verbatim>\<open>varRef.replace(RE_VAR, ...)\<close>: only the first match is replaced.\<close>

definition var_result :: "varmap \<Rightarrow> string \<Rightarrow> string \<times> warning list" where
  "var_result m varRef =
     (case RE_VAR_exec varRef of
        None \<Rightarrow> (varRef, [])
      | Some (pre, name, fallback, post) \<Rightarrow>
          (case var_replacer m name fallback of (r, ws) \<Rightarrow> (pre @ r @ post, ws)))"

text \<open>
  Lines 232 to 264 of \<^verbatim>\<open>resolveValue\<close>, one pass: the new value and the warnings, or the
  \<^verbatim>\<open>TypeError\<close> of line 234 when \<^verbatim>\<open>balanced\<close> finds no pair of parentheses there.
  \<^verbatim>\<open>value.substring(-1)\<close> is the whole value.
\<close>

definition resolve_pass :: "varmap \<Rightarrow> string \<Rightarrow> error + string \<times> warning list" where
  "resolve_pass m v =
     (let balancedParens = balanced_body v;
          varStartIndex = indexOf v ''var('';
          sub = (case varStartIndex of None \<Rightarrow> v | Some i \<Rightarrow> drop i v)
      in case balanced_body sub of
           None \<Rightarrow> Inl TypeError
         | Some varRef \<Rightarrow>
             (let w1 = (if balancedParens = None then [MissingParen v] else []);
                  w2 = (if varRef = [] then [EmptyVar] else []);
                  varFunc = ''var('' @ varRef @ '')'';
                  (varResult, w3) = var_result m varRef
              in Inr (join (split v varFunc) varResult, w1 @ w2 @ w3)))"

text \<open>
  \<^verbatim>\<open>resolveValue\<close> calls itself for as long as the value contains \<^verbatim>\<open>var\<close>; nothing
  bounds the number of calls, so the result is an option and \<open>None\<close> stands for a
  recursion that never ends.
\<close>

partial_function (option) resolveValue :: "varmap \<Rightarrow> string \<Rightarrow> (error + string \<times> warning list) option" where
  "resolveValue m v =
     (case resolve_pass m v of
        Inl e \<Rightarrow> Some (Inl e)
      | Inr (v', ws) \<Rightarrow>
          if indexOf v' ''var'' \<noteq> None
          then Option.bind (resolveValue m v')
                 (\<lambda>r. Some (case r of Inl e \<Rightarrow> Inl e | Inr (x, ws') \<Rightarrow> Inr (x, ws @ ws')))
          else Some (Inr (v', ws)))"

declare resolveValue.simps [code]

section \<open>The rule tree\<close>

text \<open>
  The tree that \<^verbatim>\<open>parseCss\<close> returns and \<^verbatim>\<open>stringifyCss\<close> prints. Both belong to the
  codec, which the engine calls as a black box; the model starts from the parsed tree and
  ends with the tree handed to the printer. An entry of a declaration list is a
  declaration (\<^verbatim>\<open>property\<close>, \<^verbatim>\<open>value\<close>) or a comment. A rule is one of the kinds of the
  data model; each constructor carries the fields the code reads:
  \<^verbatim>\<open>selectors\<close> and \<^verbatim>\<open>declarations\<close> for type \<^verbatim>\<open>rule\<close>, \<^verbatim>\<open>declarations\<close> for
  \<^verbatim>\<open>font-face\<close>, the name and \<^verbatim>\<open>keyframes\<close> for a keyframes rule, the type, the condition
  and \<^verbatim>\<open>rules\<close> for a container (media, supports, document), and neither of
  \<^verbatim>\<open>declarations\<close>, \<^verbatim>\<open>keyframes\<close>, \<^verbatim>\<open>rules\<close> for a comment or a rule of another kind.
\<close>

datatype decl =
    Declaration string string
  | DeclComment string

datatype keyframe = Keyframe "string list" "decl list"

datatype rule =
    Rule "string list" "decl list"
  | FontFace "decl list"
  | Keyframes string "keyframe list"
  | Container string string "rule list"
  | RuleComment string
  | Other string

text \<open>Reading a field; \<open>None\<close> is \<^verbatim>\<open>undefined\<close>.\<close>

fun property_of :: "decl \<Rightarrow> string option" where
  "property_of (Declaration p v) = Some p"
| "property_of (DeclComment c) = None"

fun value_of :: "decl \<Rightarrow> string option" where
  "value_of (Declaration p v) = Some v"
| "value_of (DeclComment c) = None"

fun keyframe_declarations :: "keyframe \<Rightarrow> decl list" where
  "keyframe_declarations (Keyframe vals ds) = ds"

fun declarations_of :: "rule \<Rightarrow> decl list option" where
  "declarations_of (Rule sels ds) = Some ds"
| "declarations_of (FontFace ds) = Some ds"
| "declarations_of r = None"

section \<open>Filtering: filterVars\<close>

text \<open>
  \<^verbatim>\<open>reVarProp = /^--/\<close> and \<^verbatim>\<open>reVarVal = /^var(.*)/\<close>. In the second expression the
  parentheses form a group, so it asks for a string that starts with \<^verbatim>\<open>var\<close>.
  \<^verbatim>\<open>test\<close> turns its argument into a string first: \<^verbatim>\<open>undefined\<close> becomes the text
  \<^verbatim>\<open>undefined\<close>.
\<close>

definition to_string :: "string option \<Rightarrow> string" where
  "to_string x = (case x of None \<Rightarrow> ''undefined'' | Some s \<Rightarrow> s)"

definition reVarProp_test :: "string option \<Rightarrow> bool" where
  "reVarProp_test x = startsWith (to_string x) ''--''"

definition reVarVal_test :: "string option \<Rightarrow> bool" where
  "reVarVal_test x = startsWith (to_string x) ''var''"

text \<open>The test of lines 192 and 201:
  \<^verbatim>\<open>d => reVarProp.test(d.property) || reVarVal.test(d.value)\<close>.\<close>

definition is_var_decl :: "decl \<Rightarrow> bool" where
  "is_var_decl d = (reVarProp_test (property_of d) \<or> reVarVal_test (value_of d))"

text \<open>Line 206, \<^verbatim>\<open>.filter(r => r.declarations.length)\<close>: reading \<^verbatim>\<open>length\<close> of a
  missing \<^verbatim>\<open>declarations\<close> raises a \<^verbatim>\<open>TypeError\<close>.\<close>

fun with_declarations :: "rule list \<Rightarrow> error + rule list" where
  "with_declarations [] = Inr []"
| "with_declarations (r # rs) =
     (case declarations_of r of
        None \<Rightarrow> Inl TypeError
      | Some ds \<Rightarrow>
          (case with_declarations rs of
             Inl e \<Rightarrow> Inl e
           | Inr rs' \<Rightarrow> Inr (if length ds \<noteq> 0 then r # rs' else rs')))"

text \<open>
  \<^verbatim>\<open>filterVars\<close>: \<open>filter_rule\<close> is the function given to \<^verbatim>\<open>rules.filter\<close>; it returns
  whether the rule is kept, and the rule, whose \<^verbatim>\<open>rules\<close> it may have replaced. The
  array \<^verbatim>\<open>declArray\<close> of lines 190 to 194 is only measured, the rule keeps its
  declarations.
\<close>

fun filterVars :: "rule list \<Rightarrow> error + rule list"
  and filter_rule :: "rule \<Rightarrow> error + bool \<times> rule" where
  "filterVars [] = Inr []"
| "filterVars (r # rs) =
     (case filter_rule r of
        Inl e \<Rightarrow> Inl e
      | Inr (keep, r') \<Rightarrow>
          (case filterVars rs of
             Inl e \<Rightarrow> Inl e
           | Inr rs' \<Rightarrow> Inr (if keep then r' # rs' else rs')))"
| "filter_rule (Rule sels ds) =
     (let declArray = filter is_var_decl ds in Inr (length declArray \<noteq> 0, Rule sels ds))"
| "filter_rule (FontFace ds) =
     (let declArray = filter is_var_decl ds in Inr (length declArray \<noteq> 0, FontFace ds))"
| "filter_rule (Keyframes name ks) =
     Inr (length (filter (\<lambda>k. length (filter is_var_decl (keyframe_declarations k)) \<noteq> 0) ks) \<noteq> 0,
          Keyframes name ks)"
| "filter_rule (Container ty cond rs) =
     (case filterVars rs of
        Inl e \<Rightarrow> Inl e
      | Inr rs' \<Rightarrow>
          (case with_declarations rs' of
             Inl e \<Rightarrow> Inl e
           | Inr rs'' \<Rightarrow> Inr (length rs'' \<noteq> 0, Container ty cond rs'')))"
| "filter_rule (RuleComment c) = Inr (True, RuleComment c)"
| "filter_rule (Other ty) = Inr (True, Other ty)"

section \<open>The transformation: transformVars\<close>

text \<open>
  The settings after \<^verbatim>\<open>mergeDeep(defaults, options)\<close>. \<open>variables\<close> lists the entries of
  \<^verbatim>\<open>settings.variables\<close> in the order of \<^verbatim>\<open>Object.keys\<close>. The callback \<^verbatim>\<open>onWarning\<close> is
  modelled by the list of warnings returned.
\<close>

record settings =
  onlyVars :: bool
  preserve :: bool
  variables :: "(string \<times> string) list"

text \<open>A computation that may warn, raise, or never return (\<open>None\<close>).\<close>

type_synonym 'a result = "(error + 'a \<times> warning list) option"

definition return_result :: "'a \<Rightarrow> 'a result" where
  "return_result x = Some (Inr (x, []))"

definition bind_result :: "'a result \<Rightarrow> ('a \<Rightarrow> 'b result) \<Rightarrow> 'b result" where
  "bind_result r f =
     (case r of
        None \<Rightarrow> None
      | Some (Inl e) \<Rightarrow> Some (Inl e)
      | Some (Inr (x, ws)) \<Rightarrow>
          (case f x of
             None \<Rightarrow> None
           | Some (Inl e) \<Rightarrow> Some (Inl e)
           | Some (Inr (y, ws')) \<Rightarrow> Some (Inr (y, ws @ ws'))))"









text \<open>
  Lines 128 to 163, the function given to \<^verbatim>\<open>walkCss\<close>: the loop over one declaration
  list, from index \<open>i\<close>. \<^verbatim>\<open>declarations.splice(i, 0, d)\<close> puts \<open>d\<close> at index \<open>i\<close>.
\<close>

definition add_warnings :: "warning list \<Rightarrow> 'a result \<Rightarrow> 'a result" where
  "add_warnings ws r = bind_result (Some (Inr ((), ws))) (\<lambda>_. r)"

function visit_from :: "settings \<Rightarrow> varmap \<Rightarrow> nat \<Rightarrow> decl list \<Rightarrow> decl list result" where
  "visit_from st m i declarations =
     (if i < length declarations then
        (case declarations ! i of
           DeclComment c \<Rightarrow> visit_from st m (Suc i) declarations
         | Declaration prop v \<Rightarrow>
             if v = [] \<or> indexOf v ''var('' = None then visit_from st m (Suc i) declarations
             else
               (case resolveValue m v of
                  None \<Rightarrow> None
                | Some (Inl e) \<Rightarrow> Some (Inl e)
                | Some (Inr (resolvedValue, ws)) \<Rightarrow>
                    add_warnings ws
                      (if resolvedValue \<noteq> ''undefined'' then
                         if \<not> preserve st
                         then visit_from st m (Suc i)
                                (declarations[i := Declaration prop resolvedValue])
                         else visit_from st m (Suc (Suc i))
                                (take i declarations @ Declaration prop resolvedValue #
                                 drop i declarations)
                       else visit_from st m (Suc i) declarations)))
      else return_result declarations)"
  by pat_completeness auto
termination
  by (relation "measure (\<lambda>(st, m, i, ds). length ds - i)") auto

declare visit_from.simps [simp del]

text \<open>
  What the loop does, said entry by entry: a comment, and a value without \<^verbatim>\<open>var(\<close>, stay
  as they are; a value that resolves to the text \<^verbatim>\<open>undefined\<close> stays as it is; any other
  resolved value replaces the value in place, or, under \<^verbatim>\<open>preserve\<close>, comes as a new
  entry in front of the entry it was resolved from.
\<close>

definition resolved_entries :: "settings \<Rightarrow> varmap \<Rightarrow> decl \<Rightarrow> decl list result" where
  "resolved_entries st m d =
     (case d of
        DeclComment c \<Rightarrow> return_result [d]
      | Declaration pr v \<Rightarrow>
          if v = [] \<or> indexOf v ''var('' = None then return_result [d]
          else
            (case resolveValue m v of
               None \<Rightarrow> None
             | Some (Inl e) \<Rightarrow> Some (Inl e)
             | Some (Inr (resolvedValue, ws)) \<Rightarrow>
                 Some (Inr (if resolvedValue = ''undefined'' then [d]
                            else if preserve st then [Declaration pr resolvedValue, d]
                            else [Declaration pr resolvedValue], ws))))"

fun resolved_list :: "settings \<Rightarrow> varmap \<Rightarrow> decl list \<Rightarrow> decl list result" where
  "resolved_list st m [] = return_result []"
| "resolved_list st m (d # ds) =
     bind_result (resolved_entries st m d) (\<lambda>xs.
     bind_result (resolved_list st m ds) (\<lambda>ys.
     return_result (xs @ ys)))"

definition resolve_declarations :: "settings \<Rightarrow> varmap \<Rightarrow> decl list \<Rightarrow> decl list result" where
  "resolve_declarations st m declarations = visit_from st m 0 declarations"







section \<open>The chunk layer of cssVars\<close>

text \<open>
  A regular expression without anchors, groups that are referred to, or look-ahead, as far
  as \<^verbatim>\<open>test\<close> is concerned: \<^verbatim>\<open>test\<close> is true when some part of the string belongs to the
  language of the expression. \<open>Chars P\<close> is one character of a class, \<open>Star\<close> is \<^verbatim>\<open>*\<close>.
\<close>

datatype re =
    Eps
  | Chars "char \<Rightarrow> bool"
  | Seq re re
  | Alt re re
  | Star re

fun nullable :: "re \<Rightarrow> bool" where
  "nullable Eps = True"
| "nullable (Chars P) = False"
| "nullable (Seq a b) = (nullable a \<and> nullable b)"
| "nullable (Alt a b) = (nullable a \<or> nullable b)"
| "nullable (Star a) = True"

text \<open>What is left of the expression once the character \<open>c\<close> is read; \<open>None\<close> when no
  match starts with \<open>c\<close>.\<close>

fun deriv :: "char \<Rightarrow> re \<Rightarrow> re option" where
  "deriv c Eps = None"
| "deriv c (Chars P) = (if P c then Some Eps else None)"
| "deriv c (Seq a b) =
     (case deriv c a of
        Some a' \<Rightarrow>
          (if nullable a
           then (case deriv c b of Some b' \<Rightarrow> Some (Alt (Seq a' b) b') | None \<Rightarrow> Some (Seq a' b))
           else Some (Seq a' b))
      | None \<Rightarrow> if nullable a then deriv c b else None)"
| "deriv c (Alt a b) =
     (case deriv c a of
        Some a' \<Rightarrow> (case deriv c b of Some b' \<Rightarrow> Some (Alt a' b') | None \<Rightarrow> Some a')
      | None \<Rightarrow> deriv c b)"
| "deriv c (Star a) = (case deriv c a of Some a' \<Rightarrow> Some (Seq a' (Star a)) | None \<Rightarrow> None)"

fun matches_at_start :: "re \<Rightarrow> string \<Rightarrow> bool" where
  "matches_at_start r [] = nullable r"
| "matches_at_start r (c # cs) =
     (nullable r \<or> (case deriv c r of None \<Rightarrow> False | Some r' \<Rightarrow> matches_at_start r' cs))"

fun re_test :: "re \<Rightarrow> string \<Rightarrow> bool" where
  "re_test r [] = nullable r"
| "re_test r (c # cs) = (matches_at_start r (c # cs) \<or> re_test r cs)"

definition lit :: "string \<Rightarrow> re" where
  "lit s = foldr (\<lambda>c r. Seq (Chars (\<lambda>x. x = c)) r) s Eps"

text \<open>
  \<^verbatim>\<open>regex.cssVars\<close>, line 42:
  \<^verbatim>\<open>/(?:(?::root\s*{\s*[^;]*;*\s*)|(?:var\(\s*))(--[^:)]+)(?:\s*[:)])/\<close>.
\<close>

definition cssVars_re :: re where
  "cssVars_re =
     Seq (Alt
            (Seq (lit '':root'') (Seq (Star (Chars is_space)) (Seq (lit ''{'')
              (Seq (Star (Chars is_space)) (Seq (Star (Chars (\<lambda>c. c \<noteq> CHR '';'')))
                (Seq (Star (Chars (\<lambda>c. c = CHR '';''))) (Star (Chars is_space))))))))
            (Seq (lit ''var('') (Star (Chars is_space))))
       (Seq (Seq (lit ''--'')
               (Seq (Chars (\<lambda>c. c \<noteq> CHR '':'' \<and> c \<noteq> CHR '')''))
                    (Star (Chars (\<lambda>c. c \<noteq> CHR '':'' \<and> c \<noteq> CHR '')'')))))
          (Seq (Star (Chars is_space)) (Chars (\<lambda>c. c = CHR '':'' \<or> c = CHR '')''))))"

definition cssVars_test :: "string \<Rightarrow> bool" where
  "cssVars_test css = re_test cssVars_re css"

text \<open>A number as \<^verbatim>\<open>${i}\<close> prints it, and the marker of line 224.\<close>

definition digit_char :: "nat \<Rightarrow> char" where
  "digit_char n = ''0123456789'' ! n"

function show_nat :: "nat \<Rightarrow> string" where
  "show_nat n = (if n < 10 then [digit_char n] else show_nat (n div 10) @ [digit_char (n mod 10)])"
  by pat_completeness auto
termination
  by (relation "measure id") auto

declare show_nat.simps [simp del]

definition marker :: "string \<Rightarrow> string" where
  "marker digits = ''/*__CSSVARSPONYFILL-'' @ digits @ ''__*/''"

text \<open>Line 224: every chunk that fails \<^verbatim>\<open>regex.cssVars.test\<close> is replaced by the marker
  of its index, and the chunks are joined.\<close>

definition coalesce :: "string list \<Rightarrow> string" where
  "coalesce cssArray =
     concat (map (\<lambda>(css, i). if cssVars_test css then css else marker (show_nat i))
       (zip cssArray [0..<length cssArray]))"

text \<open>
  \<^verbatim>\<open>cssMarker = /\/\*__CSSVARSPONYFILL-(\d+)__\*\//g\<close> and its \<^verbatim>\<open>exec\<close>: the expression is
  global, so the search starts at \<^verbatim>\<open>lastIndex\<close>. The result is the index of the match and
  the digits captured; \<open>None\<close> is \<^verbatim>\<open>null\<close>.
\<close>

definition is_digit :: "char \<Rightarrow> bool" where
  "is_digit c = (c \<in> set ''0123456789'')"

definition marker_at :: "string \<Rightarrow> string option" where
  "marker_at s =
     (if startsWith s ''/*__CSSVARSPONYFILL-'' then
        (let rest = drop (length ''/*__CSSVARSPONYFILL-'') s;
             digits = takeWhile is_digit rest
         in if digits \<noteq> [] \<and> startsWith (dropWhile is_digit rest) ''__*/'' then Some digits
            else None)
      else None)"

fun find_marker :: "nat \<Rightarrow> string \<Rightarrow> (nat \<times> string) option" where
  "find_marker i [] = None"
| "find_marker i (c # cs) =
     (case marker_at (c # cs) of
        Some digits \<Rightarrow> Some (i, digits)
      | None \<Rightarrow> find_marker (Suc i) cs)"

definition cssMarker_exec :: "string \<Rightarrow> nat \<Rightarrow> (nat \<times> string) option" where
  "cssMarker_exec cssText lastIndex =
     (if lastIndex > length cssText then None else find_marker lastIndex (drop lastIndex cssText))"

text \<open>
  \<^verbatim>\<open>cssArray[cssArrayIndex]\<close> with the captured digits as the key: an element when the
  digits are the canonical form of an index of the array, and \<^verbatim>\<open>undefined\<close> otherwise,
  which \<^verbatim>\<open>replace\<close> turns into the text \<^verbatim>\<open>undefined\<close>.
\<close>

definition nat_of_digits :: "string \<Rightarrow> nat" where
  "nat_of_digits ds = foldl (\<lambda>n c. 10 * n + (of_char c - 48)) 0 ds"

definition array_get :: "string list \<Rightarrow> string \<Rightarrow> string" where
  "array_get cssArray digits =
     (let n = nat_of_digits digits
      in if show_nat n = digits \<and> n < length cssArray then cssArray ! n else ''undefined'')"

text \<open>
  \<^verbatim>\<open>str.replace(pattern, replacement)\<close> with two strings: the first occurrence of the
  pattern is replaced, and in the replacement \<^verbatim>\<open>$$\<close> stands for a dollar sign, \<^verbatim>\<open>$&\<close> for
  the matched text, \<^verbatim>\<open>$`\<close> for the text before the match and \<^verbatim>\<open>$'\<close> for the text after
  it.
\<close>

fun expand_replacement :: "string \<Rightarrow> string \<Rightarrow> string \<Rightarrow> string \<Rightarrow> string" where
  "expand_replacement matched preceding following [] = []"
| "expand_replacement matched preceding following [c] = [c]"
| "expand_replacement matched preceding following (c # d # r) =
     (if c = CHR ''$'' \<and> d = CHR ''$'' then CHR ''$'' # expand_replacement matched preceding following r
      else if c = CHR ''$'' \<and> d = CHR ''&'' then matched @ expand_replacement matched preceding following r
      else if c = CHR ''$'' \<and> d = CHR 0x60 then preceding @ expand_replacement matched preceding following r
      else if c = CHR ''$'' \<and> d = CHR 0x27 then following @ expand_replacement matched preceding following r
      else c # expand_replacement matched preceding following (d # r))"

definition replace_first :: "string \<Rightarrow> string \<Rightarrow> string \<Rightarrow> string" where
  "replace_first str pattern replacement =
     (case indexOf str pattern of
        None \<Rightarrow> str
      | Some pos \<Rightarrow>
          (let preceding = take pos str;
               following = drop (pos + length pattern) str
           in preceding @ expand_replacement pattern preceding following replacement @ following))"

text \<open>
  Lines 237 to 246: the loop that puts the chunks back. Each \<^verbatim>\<open>exec\<close> starts where the
  last match ended, in the text as it is after the replacement. Nothing bounds the loop, so
  the result is an option.
\<close>

partial_function (option) replace_markers :: "string list \<Rightarrow> nat \<Rightarrow> string \<Rightarrow> string option" where
  "replace_markers cssArray lastIndex cssText =
     (case cssMarker_exec cssText lastIndex of
        None \<Rightarrow> Some cssText
      | Some (index, cssArrayIndex) \<Rightarrow>
          (let matchedText = marker cssArrayIndex
           in replace_markers cssArray (index + length matchedText)
                (replace_first cssText matchedText (array_get cssArray cssArrayIndex))))"

declare replace_markers.simps [code]

text \<open>
  Lines 224 to 246 and 293: the text given to \<^verbatim>\<open>settings.onComplete\<close>. \<open>transformCss\<close> is
  the imported transformation from text to text (parser, \<^verbatim>\<open>transformVars\<close>, printer);
  \<open>None\<close> is an exception it raises, after which \<^verbatim>\<open>cssText\<close> is still the joined text.
\<close>

definition onComplete_text :: "(string \<Rightarrow> string option) \<Rightarrow> string list \<Rightarrow> string option" where
  "onComplete_text transformCss cssArray =
     (let cssText = coalesce cssArray
      in case transformCss cssText of
           None \<Rightarrow> Some cssText
         | Some transformed \<Rightarrow> replace_markers cssArray 0 transformed)"

section \<open>Properties of the resolver\<close>

lemma startsWith_append: "startsWith (p @ r) p"
  by (induction p) auto

lemma startsWith_self: "startsWith p p"
  using startsWith_append [of p "[]"] by simp

lemma split_self: "s \<noteq> [] \<Longrightarrow> split s s = [[], []]"
  by (cases s) (simp_all add: split_def startsWith_self)

lemma join_split_self: "s \<noteq> [] \<Longrightarrow> join (split s s) r = r"
  by (simp add: split_self)

lemma range_from_balanced:
  "balanced_at (length stk) s \<Longrightarrow>
   range_from i (stk @ [b]) lr (s @ CHR '')'' # rest) = Some (b, i + length s)"
proof (induction s arbitrary: i stk lr)
  case Nil
  then show ?case by simp
next
  case (Cons c cs)
  show ?case
  proof (cases "c = CHR ''(''")
    case True
    with Cons.prems have "balanced_at (length (i # stk)) cs" by simp
    from Cons.IH [OF this, of "Suc i" lr] True show ?thesis by simp
  next
    case False
    show ?thesis
    proof (cases "c = CHR '')''")
      case True
      with Cons.prems obtain x stk' where stk: "stk = x # stk'" and b: "balanced_at (length stk') cs"
        by (cases stk) auto
      show ?thesis
        using Cons.IH [OF b, of "Suc i"] True stk by (cases stk') auto
    next
      case c: False
      with False Cons.prems have "balanced_at (length stk) cs" by simp
      from Cons.IH [OF this, of "Suc i" lr] False c show ?thesis by simp
    qed
  qed
qed

lemma balanced_at_no_parens:
  "CHR ''('' \<notin> set s \<Longrightarrow> CHR '')'' \<notin> set s \<Longrightarrow> balanced_at d (s @ t) = balanced_at d t"
  by (induction s) auto

lemma balanced_body_var:
  assumes "balanced_at 0 body"
  shows "balanced_body (''var('' @ body @ '')'' @ rest) = Some body"
  using range_from_balanced [of "[]" body "Suc (Suc (Suc (Suc 0)))" "Suc (Suc (Suc 0))" None rest] assms
  by (simp add: balanced_body_def balanced_range_def)

lemma resolve_pass_single:
  assumes "balanced_at 0 body"
  shows "resolve_pass m (''var('' @ body @ '')'') =
     Inr (fst (var_result m body), (if body = [] then [EmptyVar] else []) @ snd (var_result m body))"
proof -
  define v where "v = ''var('' @ body @ '')''"
  have b: "balanced_body v = Some body"
    using balanced_body_var [OF assms, of "[]"] by (simp add: v_def)
  have i: "indexOf v ''var('' = Some 0"
    by (simp add: v_def)
  have j: "join (split v v) r = r" for r
    by (rule join_split_self) (simp add: v_def)
  have "resolve_pass m v =
     Inr (fst (var_result m body), (if body = [] then [EmptyVar] else []) @ snd (var_result m body))"
  proof -
    have vf: "CHR ''v'' # CHR ''a'' # CHR ''r'' # CHR ''('' # body @ '')'' = v"
      by (simp add: v_def)
    show ?thesis
      unfolding resolve_pass_def Let_def i
      by (simp add: b j split_beta vf)
  qed
  then show ?thesis by (simp add: v_def)
qed

lemma name_char_not_paren:
  "is_name_char c \<Longrightarrow> c \<noteq> CHR ''('' \<and> c \<noteq> CHR '')'' \<and> c \<noteq> CHR '','' \<and> \<not> is_space c \<and> \<not> is_line_terminator c"
  by (auto simp: is_name_char_def is_space_def is_line_terminator_def)


lemma RE_VAR_exec_name:
  assumes "name \<noteq> []" "\<forall>c\<in>set name. is_name_char c"
  shows "RE_VAR_exec name = Some ([], name, [], [])"
proof -
  obtain c cs where n: "name = c # cs" using assms(1) by (cases name) auto
  have t: "takeWhile is_name_char name = name" "dropWhile is_name_char name = []"
    using assms(2) by auto
  have p: "takeWhile (\<lambda>c. \<not> is_name_char c) name = []" "dropWhile (\<lambda>c. \<not> is_name_char c) name = name"
    using assms(2) n by auto
  show ?thesis
    unfolding RE_VAR_exec_def Let_def p t using assms(1) by simp
qed



lemma var_result_name:
  assumes "name \<noteq> []" "\<forall>c\<in>set name. is_name_char c"
  shows "var_result m name = var_replacer m name []"
  by (simp add: var_result_def RE_VAR_exec_name [OF assms])


lemma resolve_pass_name:
  assumes "name \<noteq> []" "\<forall>c\<in>set name. is_name_char c"
  shows "resolve_pass m (''var('' @ name @ '')'') = Inr (var_replacer m name [])"
proof -
  have "CHR ''('' \<notin> set name" "CHR '')'' \<notin> set name"
    using assms(2) name_char_not_paren by blast+
  then have "balanced_at 0 name"
    using balanced_at_no_parens [of name 0 "[]"] by simp
  then show ?thesis
    using assms(1) resolve_pass_single [of name m] by (simp add: var_result_name [OF assms])
qed

lemma resolveValue_done:
  "resolve_pass m v = Inr (v', ws) \<Longrightarrow> indexOf v' ''var'' = None \<Longrightarrow>
   resolveValue m v = Some (Inr (v', ws))"
  by (subst resolveValue.simps) simp

lemma resolveValue_again:
  "resolve_pass m v = Inr (v', []) \<Longrightarrow> indexOf v' ''var'' \<noteq> None \<Longrightarrow>
   resolveValue m v' = Some (Inr r) \<Longrightarrow> resolveValue m v = Some (Inr r)"
  by (subst resolveValue.simps) (simp split: prod.splits)

text \<open>
  Claim C1, as amended. For the chain \<^verbatim>\<open>--a: value; --b: var(--a); --c: var(--b)\<close>, whenever
  \<open>value\<close> does not contain \<^verbatim>\<open>var\<close>, resolving \<^verbatim>\<open>var(--c)\<close> returns after three calls
  and yields \<open>value\<close> (with the warning for an undefined variable when \<open>value\<close> is empty).
\<close>

theorem resolveValue_chain:
  assumes a: "m ''--a'' = Some v" and b: "m ''--b'' = Some ''var(--a)''"
    and c: "m ''--c'' = Some ''var(--b)''" and v: "indexOf v ''var'' = None"
  shows "resolveValue m ''var(--c)'' =
    Some (Inr (v, if v = [] then [UndefinedVar ''--a''] else []))"
proof -
  have n: "\<forall>c\<in>set ''--a''. is_name_char c" "\<forall>c\<in>set ''--b''. is_name_char c"
    "\<forall>c\<in>set ''--c''. is_name_char c"
    by (simp_all add: is_name_char_def)
  have pa: "resolve_pass m ''var(--a)'' = Inr (v, if v = [] then [UndefinedVar ''--a''] else [])"
    using resolve_pass_name [of "''--a''" m] n(1) a by (simp add: var_replacer_def)
  have pb: "resolve_pass m ''var(--b)'' = Inr (''var(--a)'', [])"
    using resolve_pass_name [of "''--b''" m] n(2) b by (simp add: var_replacer_def)
  have pc: "resolve_pass m ''var(--c)'' = Inr (''var(--b)'', [])"
    using resolve_pass_name [of "''--c''" m] n(3) c by (simp add: var_replacer_def)
  have ra: "resolveValue m ''var(--a)'' = Some (Inr (v, if v = [] then [UndefinedVar ''--a''] else []))"
    by (rule resolveValue_done [OF pa v])
  have rb: "resolveValue m ''var(--b)'' = Some (Inr (v, if v = [] then [UndefinedVar ''--a''] else []))"
    by (rule resolveValue_again [OF pb _ ra]) simp
  show ?thesis
    by (rule resolveValue_again [OF pc _ rb]) simp
qed

text \<open>The chain with the value \<^verbatim>\<open>red\<close>.\<close>

theorem resolveValue_chain_witness:
  "resolveValue [''--a'' \<mapsto> ''red'', ''--b'' \<mapsto> ''var(--a)'', ''--c'' \<mapsto> ''var(--b)'']
     ''var(--c)'' = Some (Inr (''red'', []))"
  using resolveValue_chain [of "[''--a'' \<mapsto> ''red'', ''--b'' \<mapsto> ''var(--a)'', ''--c'' \<mapsto> ''var(--b)'']" "''red''"]
  by simp

lemma resolve_pass_cycle:
  "resolve_pass [''--a'' \<mapsto> ''var(--a)''] ''var(--a)'' = Inr (''var(--a)'', [])"
  using resolve_pass_name [of "''--a''" "[''--a'' \<mapsto> ''var(--a)'']"]
  by (simp add: var_replacer_def is_name_char_def)

lemma resolveValue_cycle_aux:
  assumes "resolveValue m v = Some y"
  shows "\<not> (m = [''--a'' \<mapsto> ''var(--a)''] \<and> v = ''var(--a)'')"
proof (rule resolveValue.raw_induct
    [where P = "\<lambda>m v y. \<not> (m = [''--a'' \<mapsto> ''var(--a)''] \<and> v = ''var(--a)'')", OF _ assms])
  fix rv :: "varmap \<Rightarrow> string \<Rightarrow> (error + string \<times> warning list) option"
  fix m v y
  assume IH: "\<And>m v y. rv m v = Some y \<Longrightarrow> \<not> (m = [''--a'' \<mapsto> ''var(--a)''] \<and> v = ''var(--a)'')"
    and step: "(case resolve_pass m v of
        Inl e \<Rightarrow> Some (Inl e)
      | Inr (v', ws) \<Rightarrow>
          if indexOf v' ''var'' \<noteq> None
          then Option.bind (rv m v')
                 (\<lambda>r. Some (case r of Inl e \<Rightarrow> Inl e | Inr (x, ws') \<Rightarrow> Inr (x, ws @ ws')))
          else Some (Inr (v', ws))) = Some y"
  show "\<not> (m = [''--a'' \<mapsto> ''var(--a)''] \<and> v = ''var(--a)'')"
  proof
    assume mv: "m = [''--a'' \<mapsto> ''var(--a)''] \<and> v = ''var(--a)''"
    with step obtain y' where "rv m v = Some y'"
      by (auto simp: resolve_pass_cycle bind_eq_Some_conv simp del: fun_upd_apply)
    from IH [OF this] mv show False by blast
  qed
qed

text \<open>
  Claim C1 as stated fails: with the definition \<^verbatim>\<open>--a: var(--a)\<close> every call of
  \<^verbatim>\<open>resolveValue\<close> on \<^verbatim>\<open>var(--a)\<close> calls itself on the same value, so the recursion
  never ends.
\<close>

theorem resolveValue_cycle_counterexample:
  "resolveValue [''--a'' \<mapsto> ''var(--a)''] ''var(--a)'' = None"
  using resolveValue_cycle_aux [of "[''--a'' \<mapsto> ''var(--a)'']" "''var(--a)''"]
  by (cases "resolveValue [''--a'' \<mapsto> ''var(--a)''] ''var(--a)''") auto





section \<open>Properties of the declaration loop\<close>

lemma bind_return_left: "bind_result (return_result x) f = f x"
  by (auto simp: bind_result_def return_result_def split: option.splits sum.splits)

lemma bind_return_right: "bind_result r return_result = r"
  by (auto simp: bind_result_def return_result_def split: option.splits sum.splits)

lemma bind_assoc:
  "bind_result (bind_result r f) g = bind_result r (\<lambda>x. bind_result (f x) g)"
  by (auto simp: bind_result_def split: option.splits sum.splits)

lemma bind_None: "bind_result None f = None"
  by (simp add: bind_result_def)

lemma bind_Inl: "bind_result (Some (Inl e)) f = Some (Inl e)"
  by (simp add: bind_result_def)

lemma add_warnings_bind:
  "add_warnings ws (bind_result r f) = bind_result (add_warnings ws r) f"
  by (simp add: add_warnings_def bind_assoc)

lemma bind_warned:
  "bind_result (Some (Inr (x, ws))) f = add_warnings ws (f x)"
  by (auto simp: add_warnings_def bind_result_def split: option.splits sum.splits)

lemma visit_from_resolved_list:
  "i \<le> length ds \<Longrightarrow>
   visit_from st m i ds =
     bind_result (resolved_list st m (drop i ds)) (\<lambda>r. return_result (take i ds @ r))"
proof (induction st m i ds rule: visit_from.induct)
  case (1 st m i ds)
  show ?case
  proof (cases "i < length ds")
    case False
    with "1.prems" have "i = length ds" by simp
    then show ?thesis
      by (subst visit_from.simps) (simp add: bind_return_left)
  next
    case True
    then have dr: "drop i ds = ds ! i # drop (Suc i) ds"
      by (simp add: Cons_nth_drop_Suc)
    have tk: "take (Suc i) ds = take i ds @ [ds ! i]"
      using True by (simp add: take_Suc_conv_app_nth)
    have le: "Suc i \<le> length ds" using True by simp
    show ?thesis
    proof (cases "ds ! i")
      case (DeclComment c)
      have "visit_from st m i ds = visit_from st m (Suc i) ds"
        by (subst visit_from.simps) (simp add: True DeclComment)
      also have "\<dots> = bind_result (resolved_list st m (drop (Suc i) ds))
          (\<lambda>r. return_result (take i ds @ ds ! i # r))"
        using "1.IH"(5) [OF True DeclComment le] by (simp add: tk)
      finally have v: "visit_from st m i ds = bind_result (resolved_list st m (drop (Suc i) ds))
          (\<lambda>r. return_result (take i ds @ ds ! i # r))" .
      have e: "resolved_entries st m (ds ! i) = return_result [ds ! i]"
        by (simp add: DeclComment resolved_entries_def)
      show ?thesis by (simp add: v dr e bind_return_left bind_assoc)
    next
      case (Declaration pr v)
      show ?thesis
      proof (cases "v = [] \<or> indexOf v ''var('' = None")
        case s: True
        have "visit_from st m i ds = visit_from st m (Suc i) ds"
          using s by (subst visit_from.simps) (auto simp add: True Declaration)
        also have "\<dots> = bind_result (resolved_list st m (drop (Suc i) ds))
            (\<lambda>r. return_result (take i ds @ ds ! i # r))"
          using "1.IH"(1) [OF True Declaration s le] by (simp add: tk)
        finally have v: "visit_from st m i ds = bind_result (resolved_list st m (drop (Suc i) ds))
            (\<lambda>r. return_result (take i ds @ ds ! i # r))" .
        have e: "resolved_entries st m (ds ! i) = return_result [ds ! i]"
          using s by (auto simp add: Declaration resolved_entries_def)
        show ?thesis by (simp add: v dr e bind_return_left bind_assoc)
      next
        case s: False
        show ?thesis
        proof (cases "resolveValue m v")
          case None
          have e: "resolved_entries st m (ds ! i) = None"
            using s None by (auto simp add: Declaration resolved_entries_def)
          have "visit_from st m i ds = None"
            using s None by (subst visit_from.simps) (auto simp add: True Declaration)
          then show ?thesis
            by (simp add: dr e bind_None)
        next
          case (Some res)
          show ?thesis
          proof (cases res)
            case (Inl err)
            have e: "resolved_entries st m (ds ! i) = Some (Inl err)"
              using s Some Inl by (auto simp add: Declaration resolved_entries_def)
            have "visit_from st m i ds = Some (Inl err)"
              using s Some Inl by (subst visit_from.simps) (auto simp add: True Declaration)
            then show ?thesis
              by (simp add: dr e bind_Inl)
          next
            case (Inr rw)
            obtain r ws where rw: "(r, ws) = rw" by (cases rw) auto
            have res: "resolveValue m v = Some (Inr (r, ws))"
              using Some Inr rw by simp
            have unfold: "visit_from st m i ds =
                add_warnings ws
                  (if r \<noteq> ''undefined'' then
                     if \<not> preserve st
                     then visit_from st m (Suc i) (ds[i := Declaration pr r])
                     else visit_from st m (Suc (Suc i)) (take i ds @ Declaration pr r # drop i ds)
                   else visit_from st m (Suc i) ds)"
              using s res by (subst visit_from.simps) (auto simp add: True Declaration)
            have spec: "bind_result (resolved_list st m (drop i ds)) (\<lambda>r. return_result (take i ds @ r)) =
                add_warnings ws
                  (bind_result (resolved_list st m (drop (Suc i) ds))
                     (\<lambda>ys. return_result (take i ds @
                        (if r = ''undefined'' then [ds ! i]
                         else if preserve st then [Declaration pr r, ds ! i]
                         else [Declaration pr r]) @ ys)))"
            proof -
              have e: "resolved_entries st m (ds ! i) =
                  Some (Inr (if r = ''undefined'' then [ds ! i]
                         else if preserve st then [Declaration pr r, ds ! i]
                         else [Declaration pr r], ws))"
                using s res by (auto simp add: Declaration resolved_entries_def)
              show ?thesis
                by (simp add: dr e bind_warned bind_assoc bind_return_left add_warnings_bind)
            qed
            show ?thesis
            proof (cases "r = ''undefined''")
              case u: True
              have "visit_from st m (Suc i) ds = bind_result (resolved_list st m (drop (Suc i) ds))
                  (\<lambda>r. return_result (take i ds @ ds ! i # r))"
                using "1.IH"(4) [OF True Declaration s Some Inr rw _ le] u by (simp add: tk)
              then show ?thesis unfolding unfold spec using u by simp
            next
              case u: False
              show ?thesis
              proof (cases "preserve st")
                case p: False
                let ?ds = "ds[i := Declaration pr r]"
                have "visit_from st m (Suc i) ?ds =
                    bind_result (resolved_list st m (drop (Suc i) ?ds))
                      (\<lambda>r. return_result (take (Suc i) ?ds @ r))"
                  using "1.IH"(2) [OF True Declaration s Some Inr rw u p] le by simp
                moreover have "drop (Suc i) ?ds = drop (Suc i) ds"
                  by simp
                moreover have "take (Suc i) ?ds = take i ds @ [Declaration pr r]"
                  using True by (simp add: take_Suc_conv_app_nth)
                ultimately show ?thesis unfolding unfold spec using u p by simp
              next
                case p: True
                let ?ds = "take i ds @ Declaration pr r # drop i ds"
                have "visit_from st m (Suc (Suc i)) ?ds =
                    bind_result (resolved_list st m (drop (Suc (Suc i)) ?ds))
                      (\<lambda>r. return_result (take (Suc (Suc i)) ?ds @ r))"
                  using "1.IH"(3) [OF True Declaration s Some Inr rw u] p le by simp
                moreover have "drop (Suc (Suc i)) ?ds = drop (Suc i) ds"
                  using True by (simp add: min_def)
                moreover have "take (Suc (Suc i)) ?ds = take i ds @ [Declaration pr r, ds ! i]"
                  using True by (simp add: min_def dr)
                ultimately show ?thesis unfolding unfold spec using u p by simp
              qed
            qed
          qed
        qed
      qed
    qed
  qed
qed



lemma resolve_declarations_resolved_list:
  "resolve_declarations st m ds = resolved_list st m ds"
  using visit_from_resolved_list [of 0 ds st m]
  by (simp add: resolve_declarations_def bind_return_right [unfolded return_result_def] return_result_def)

lemma resolved_list_append:
  "resolved_list st m (xs @ ys) =
     bind_result (resolved_list st m xs) (\<lambda>a.
     bind_result (resolved_list st m ys) (\<lambda>b. return_result (a @ b)))"
  by (induction xs) (simp_all add: bind_return_left bind_assoc bind_return_right)











lemma resolve_declarations_at:
  assumes "resolved_entries st m d = Some (Inr (xs, ws))"
  shows "resolve_declarations st m (pre @ d # post) =
     bind_result (resolved_list st m pre) (\<lambda>a.
     add_warnings ws (bind_result (resolved_list st m post) (\<lambda>b.
     return_result (a @ xs @ b))))"
  by (simp add: resolve_declarations_resolved_list resolved_list_append assms bind_warned
      bind_assoc bind_return_left add_warnings_bind [symmetric])

lemma resolved_entries_reference:
  assumes "indexOf v ''var('' \<noteq> None" "resolveValue m v = Some (Inr (r, ws))"
  shows "resolved_entries st m (Declaration pr v) =
     Some (Inr (if r = ''undefined'' then [Declaration pr v]
                else if preserve st then [Declaration pr r, Declaration pr v]
                else [Declaration pr r], ws))"
  using assms by (auto simp: resolved_entries_def)

lemma resolveValue_name:
  assumes "name \<noteq> []" "\<forall>c\<in>set name. is_name_char c"
    and "indexOf (fst (var_replacer m name [])) ''var'' = None"
  shows "resolveValue m (''var('' @ name @ '')'') = Some (Inr (var_replacer m name []))"
  using resolveValue_done [of m "''var('' @ name @ '')''" "fst (var_replacer m name [])"
      "snd (var_replacer m name [])"] resolve_pass_name [OF assms(1,2), of m] assms(3)
  by simp




text \<open>
  Claim C10 as stated fails on the length it gives: the text \<^verbatim>\<open>undefined\<close>, to which a lone
  reference to an undefined variable resolves, has nine characters, so it is not an
  eight-character string; the declaration is left as it is all the same.
\<close>

theorem undefined_sentinel_counterexample:
  "resolveValue Map.empty ''var(--u)'' = Some (Inr (''undefined'', [UndefinedVar ''--u''])) \<and>
   length ''undefined'' \<noteq> 8 \<and>
   resolve_declarations \<lparr>onlyVars = True, preserve = False, variables = []\<rparr> Map.empty
     [Declaration ''color'' ''var(--u)''] =
   Some (Inr ([Declaration ''color'' ''var(--u)''], [UndefinedVar ''--u'']))"
  by code_simp

text \<open>
  Claim C10, as amended. A lone reference to an undefined variable resolves to the
  nine-character text \<^verbatim>\<open>undefined\<close>. A declaration whose value contains \<^verbatim>\<open>var(\<close> and resolves
  to exactly that text is left unchanged, with \<^verbatim>\<open>preserve\<close> and without; for any other
  resolved value the value is replaced in place (without \<^verbatim>\<open>preserve\<close>) or a declaration
  with the resolved value is inserted (with \<^verbatim>\<open>preserve\<close>).
\<close>

theorem undefined_leaves_declaration:
  "(name \<noteq> [] \<and> (\<forall>c\<in>set name. is_name_char c) \<and> m' name = None \<longrightarrow>
      resolveValue m' (''var('' @ name @ '')'') = Some (Inr (''undefined'', [UndefinedVar name]))) \<and>
   length ''undefined'' = 9 \<and>
   (indexOf v ''var('' \<noteq> None \<and> resolveValue m v = Some (Inr (r, ws)) \<longrightarrow>
      resolve_declarations st m (pre @ Declaration pr v # post) =
        bind_result (resolved_list st m pre) (\<lambda>a.
        add_warnings ws (bind_result (resolved_list st m post) (\<lambda>b.
        return_result (a @
          (if r = ''undefined'' then [Declaration pr v]
           else if preserve st then [Declaration pr r, Declaration pr v]
           else [Declaration pr r]) @ b)))))"
proof (intro conjI impI)
  assume a: "name \<noteq> [] \<and> (\<forall>c\<in>set name. is_name_char c) \<and> m' name = None"
  then have "var_replacer m' name [] = (''undefined'', [UndefinedVar name])"
    by (simp add: var_replacer_def)
  with a resolveValue_name [of name m']
  show "resolveValue m' (''var('' @ name @ '')'') = Some (Inr (''undefined'', [UndefinedVar name]))"
    by simp
next
  show "length ''undefined'' = 9" by simp
next
  assume "indexOf v ''var('' \<noteq> None \<and> resolveValue m v = Some (Inr (r, ws))"
  then have "resolved_entries st m (Declaration pr v) =
     Some (Inr (if r = ''undefined'' then [Declaration pr v]
                else if preserve st then [Declaration pr r, Declaration pr v]
                else [Declaration pr r], ws))"
    by (simp add: resolved_entries_reference)
  from resolve_declarations_at [OF this]
  show "resolve_declarations st m (pre @ Declaration pr v # post) =
        bind_result (resolved_list st m pre) (\<lambda>a.
        add_warnings ws (bind_result (resolved_list st m post) (\<lambda>b.
        return_result (a @
          (if r = ''undefined'' then [Declaration pr v]
           else if preserve st then [Declaration pr r, Declaration pr v]
           else [Declaration pr r]) @ b))))" .
qed

text \<open>The declaration \<^verbatim>\<open>width: var(--u)\<close> with \<^verbatim>\<open>--u\<close> undefined, \<^verbatim>\<open>preserve\<close> set.\<close>

theorem undefined_leaves_declaration_witness:
  "resolve_declarations \<lparr>onlyVars = True, preserve = True, variables = []\<rparr> Map.empty
     [Declaration ''color'' ''red'', Declaration ''width'' ''var(--u)''] =
   Some (Inr ([Declaration ''color'' ''red'', Declaration ''width'' ''var(--u)''],
     [UndefinedVar ''--u'']))"
proof -
  have n: "''--u'' \<noteq> [] \<and> (\<forall>c\<in>set ''--u''. is_name_char c) \<and> (Map.empty :: varmap) ''--u'' = None"
    by (simp add: is_name_char_def)
  have i: "indexOf ''var(--u)'' ''var('' \<noteq> None"
    by simp
  from undefined_leaves_declaration [of "''--u''" Map.empty "''var(--u)''" Map.empty
      "''undefined''" "[UndefinedVar ''--u'']"
      "\<lparr>onlyVars = True, preserve = True, variables = []\<rparr>" "[Declaration ''color'' ''red'']"
      "''width''" "[]"] n i
  show ?thesis
    by (simp add: resolved_entries_def bind_result_def return_result_def add_warnings_def)
qed

section \<open>Properties of the filter\<close>

text \<open>
  Claim C4, on the code: the rule \<^verbatim>\<open>a { color: red; --x: 1px }\<close> is kept with both of its
  declarations; the declaration \<^verbatim>\<open>color: red\<close>, neither a definition nor a reference site,
  is not removed.
\<close>

theorem filterVars_keeps_all_declarations:
  "filterVars [Rule [''a''] [Declaration ''color'' ''red'', Declaration ''--x'' ''1px'']] =
   Inr [Rule [''a''] [Declaration ''color'' ''red'', Declaration ''--x'' ''1px'']]"
  by (simp add: is_var_decl_def reVarProp_test_def reVarVal_test_def to_string_def)

text \<open>
  Claim C5, on the code: a keyframes rule and a font-face rule whose only reference is not
  at the start of the value (\<^verbatim>\<open>translateX(var(--x))\<close>, \<^verbatim>\<open>calc(var(--w))\<close>) are both dropped.
\<close>

theorem filterVars_drops_inner_reference:
  "filterVars
     [Keyframes ''k'' [Keyframe [''from''] [Declaration ''transform'' ''translateX(var(--x))'']],
      FontFace [Declaration ''font-weight'' ''calc(var(--w))'']] = Inr []"
  by (simp add: is_var_decl_def reVarProp_test_def reVarVal_test_def to_string_def)

text \<open>
  Claim C6, on the code: a comment among the nested rules of a container passes the
  recursive filter and then has no \<^verbatim>\<open>declarations\<close> whose length line 206 could read:
  the filter raises a \<^verbatim>\<open>TypeError\<close>.
\<close>

theorem filterVars_nested_comment_raises:
  "filterVars
     [Container ''media'' ''screen''
        [RuleComment ''c'', Rule [''a''] [Declaration ''color'' ''var(--x)'']]] = Inl TypeError"
  by (simp add: is_var_decl_def reVarProp_test_def reVarVal_test_def to_string_def)

section \<open>Properties of the variable map\<close>




































section \<open>Properties of the chunk layer\<close>

lemma marker_at_length: "marker_at s = Some digits \<Longrightarrow> 25 \<le> length s"
proof -
  assume a: "marker_at s = Some digits"
  have n: "length ''/*__CSSVARSPONYFILL-'' = 20"
    by simp
  from a have p: "startsWith s ''/*__CSSVARSPONYFILL-''"
    and d: "takeWhile is_digit (drop 20 s) \<noteq> []"
    and e: "startsWith (dropWhile is_digit (drop 20 s)) ''__*/''"
    unfolding marker_at_def Let_def n by (auto split: if_splits)
  have l: "length q \<le> length t" if "startsWith t q" for t q
    using that by (induction t q rule: startsWith.induct) auto
  have "length (drop 20 s) =
      length (takeWhile is_digit (drop 20 s)) + length (dropWhile is_digit (drop 20 s))"
    by (metis length_append takeWhile_dropWhile_id)
  moreover have "1 \<le> length (takeWhile is_digit (drop 20 s))"
    using d by (cases "takeWhile is_digit (drop 20 s)") auto
  moreover have "4 \<le> length (dropWhile is_digit (drop 20 s))"
    using l [OF e] by simp
  moreover have "20 \<le> length s"
    using l [OF p] by simp
  ultimately show ?thesis by simp
qed

lemma find_marker_short: "length s < 25 \<Longrightarrow> find_marker i s = None"
proof (induction s arbitrary: i)
  case Nil
  then show ?case by simp
next
  case (Cons c cs)
  have "marker_at (c # cs) = None"
    using marker_at_length [of "c # cs"] Cons.prems by (cases "marker_at (c # cs)") auto
  then show ?case using Cons by simp
qed

lemma replace_markers_skips:
  assumes "length sep < 22"
  shows "replace_markers [''a{}'', ''b{}''] 0 (marker ''0'' @ sep @ marker ''1'') =
     Some (''a{}'' @ sep @ marker ''1'')"
proof -
  let ?t = "marker ''0'' @ sep @ marker ''1''"
  let ?t' = "''a{}'' @ sep @ marker ''1''"
  have e0: "cssMarker_exec ?t 0 = Some (0, ''0'')"
    by (simp add: cssMarker_exec_def marker_def marker_at_def is_digit_def)
  have g: "array_get [''a{}'', ''b{}''] ''0'' = ''a{}''"
    by (simp add: array_get_def nat_of_digits_def show_nat.simps digit_char_def)
  have r: "replace_first ?t (marker ''0'') ''a{}'' = ?t'"
    by (simp add: replace_first_def marker_def)
  have "length (drop 25 ?t') < 25"
    using assms by (simp add: marker_def)
  then have e1: "cssMarker_exec ?t' 25 = None"
    by (simp add: cssMarker_exec_def find_marker_short)
  have l: "length (marker ''0'') = 25"
    by (simp add: marker_def)
  have "replace_markers [''a{}'', ''b{}''] 0 ?t = replace_markers [''a{}'', ''b{}''] 25 ?t'"
    by (subst replace_markers.simps) (simp only: e0 option.case prod.case Let_def g r l add_0)
  also have "\<dots> = Some ?t'"
    by (subst replace_markers.simps) (simp only: e1 option.case)
  finally show ?thesis .
qed

text \<open>
  Claim C9, on the code: the two chunks \<^verbatim>\<open>a{}\<close> and \<^verbatim>\<open>b{}\<close> fail the pre-test and are
  replaced by their markers; when the transformed text holds the two markers less than 22
  characters apart, the loop replaces the first marker by \<^verbatim>\<open>a{}\<close> and then searches from
  index 25, behind the start of the second marker, which stays in the output: the chunk
  \<^verbatim>\<open>b{}\<close> is not in the final text.
\<close>

theorem short_chunk_hides_next_marker:
  "\<not> cssVars_test ''a{}'' \<and> \<not> cssVars_test ''b{}'' \<and>
   coalesce [''a{}'', ''b{}''] = marker ''0'' @ marker ''1'' \<and>
   (length sep < 22 \<longrightarrow>
      replace_markers [''a{}'', ''b{}''] 0 (marker ''0'' @ sep @ marker ''1'') =
        Some (''a{}'' @ sep @ marker ''1'')) \<and>
   onComplete_text Some [''a{}'', ''b{}''] = Some (''a{}'' @ marker ''1'')"
proof -
  have t: "\<not> cssVars_test ''a{}''" "\<not> cssVars_test ''b{}''"
    by code_simp+
  have c: "coalesce [''a{}'', ''b{}''] = marker ''0'' @ marker ''1''"
    by (simp add: coalesce_def t show_nat.simps digit_char_def upt_rec)
  have "onComplete_text Some [''a{}'', ''b{}''] = Some (''a{}'' @ marker ''1'')"
    using replace_markers_skips [of "[]"] by (simp add: onComplete_text_def c)
  with t c replace_markers_skips [of sep] show ?thesis by blast
qed

text \<open>The two markers side by side.\<close>

theorem short_chunk_hides_next_marker_witness:
  "replace_markers [''a{}'', ''b{}''] 0 (marker ''0'' @ marker ''1'') = Some (''a{}'' @ marker ''1'')"
  using short_chunk_hides_next_marker [of "[]"] by simp

text \<open>
  The replacement text is read for \<^verbatim>\<open>$\<close> patterns as well: in the inert chunk
  \<^verbatim>\<open>p{content:'$'}\<close> the characters \<^verbatim>\<open>$'\<close> are replaced by the text that follows the
  marker.
\<close>

lemma dollar_pattern_in_chunk:
  "replace_markers [''p{content:'' @ [CHR 0x27, CHR ''$'', CHR 0x27] @ ''}'', ''b{w:var(--x)}'']
     0 (marker ''0'' @ ''b{w:1px}'') =
   Some (''p{content:'' @ [CHR 0x27] @ ''b{w:1px}'' @ ''}'' @ ''b{w:1px}'')"
  by code_simp

end
